theory Spec2Isabelle
  imports Complex_Main
begin

section \<open>The document: elements and their class lists\<close>

text \<open>
  The scripts keep no registry object of their own: the state of a panel is the class
  list of its DOM element. An element carries its \<open>id\<close> attribute (empty when it has
  none), its \<open>classList\<close> (an ordered set of tokens), whether it has the attribute
  \<open>data-adjust-scroll\<close>, and the \<open>data-state\<close> attribute of its \<open>.title\<close> child
  (\<open>None\<close> when \<open>term.querySelector('.title')\<close> finds nothing).
  The document is the list of its elements in document order; an element reference of the
  script is an index into that list.
\<close>

record element =
  el_id :: string
  classList :: "string list"
  data_adjust_scroll :: bool
  title_state :: "string option"

type_synonym document = "element list"

text \<open>\<open>DOMTokenList\<close>: \<open>contains\<close>, \<open>add\<close>, \<open>remove(t1, t2, ...)\<close>, \<open>toggle\<close>.\<close>

definition cl_contains :: "string list \<Rightarrow> string \<Rightarrow> bool" where
  "cl_contains cl c = (c \<in> set cl)"

definition cl_add :: "string list \<Rightarrow> string \<Rightarrow> string list" where
  "cl_add cl c = (if c \<in> set cl then cl else cl @ [c])"

definition cl_remove :: "string list \<Rightarrow> string list \<Rightarrow> string list" where
  "cl_remove cl cs = filter (\<lambda>c. c \<notin> set cs) cl"

definition cl_toggle :: "string list \<Rightarrow> string \<Rightarrow> string list" where
  "cl_toggle cl c = (if c \<in> set cl then filter (\<lambda>x. x \<noteq> c) cl else cl @ [c])"

definition is_terminal :: "element \<Rightarrow> bool" where
  "is_terminal e = cl_contains (classList e) ''terminal''"

definition is_closed :: "element \<Rightarrow> bool" where
  "is_closed e = cl_contains (classList e) ''closed''"

definition is_minimized :: "element \<Rightarrow> bool" where
  "is_minimized e = cl_contains (classList e) ''minimized''"

definition is_maximized :: "element \<Rightarrow> bool" where
  "is_maximized e = cl_contains (classList e) ''maxwide''"

text \<open>Applying a mutation to the element behind a reference.\<close>

definition modify :: "nat \<Rightarrow> (element \<Rightarrow> element) \<Rightarrow> document \<Rightarrow> document" where
  "modify t f d = (if t < length d then d[t := f (d ! t)] else d)"

definition on_classes :: "(string list \<Rightarrow> string list) \<Rightarrow> element \<Rightarrow> element" where
  "on_classes f e = e\<lparr>classList := f (classList e)\<rparr>"

text \<open>
  \<open>document.getElementById(id)\<close>: the first element in document order whose id is
  \<open>id\<close>, or null. An element with an empty id attribute has no id, so the empty string
  finds nothing.
\<close>

fun index_of :: "(element \<Rightarrow> bool) \<Rightarrow> document \<Rightarrow> nat option" where
  "index_of P [] = None"
| "index_of P (e # es) = (if P e then Some 0 else map_option Suc (index_of P es))"

definition getElementById :: "document \<Rightarrow> string \<Rightarrow> nat option" where
  "getElementById d i = (if i = [] then None else index_of (\<lambda>e. el_id e = i) d)"

text \<open>
  \<open>document.querySelectorAll('.terminal.maxwide').forEach(t => t.classList.remove('maxwide'))\<close>
\<close>

definition unmaximize_all :: "document \<Rightarrow> document" where
  "unmaximize_all d =
     map (\<lambda>e. if is_terminal e \<and> is_maximized e
               then on_classes (\<lambda>cl. cl_remove cl [''maxwide'']) e else e) d"

text \<open>The elements that statement calls \<open>classList.remove\<close> on.\<close>

definition maximized_indices :: "document \<Rightarrow> nat list" where
  "maximized_indices d = filter (\<lambda>j. is_terminal (d ! j) \<and> is_maximized (d ! j)) [0..<length d]"

text \<open>\<open>focusTerminal(term)\<close>, the operation the specification calls setMaximizedExclusive.\<close>

definition focusTerminal :: "document \<Rightarrow> nat \<Rightarrow> document" where
  "focusTerminal d t =
     (let d1 = unmaximize_all d;
          d2 = modify t (on_classes (\<lambda>cl. cl_remove cl [''closed'', ''minimized''])) d1
      in modify t (on_classes (\<lambda>cl. cl_add cl ''maxwide'')) d2)"

section \<open>Title state\<close>

text \<open>\<open>Array.prototype.join(sep)\<close> on an array of strings.\<close>

fun join :: "string \<Rightarrow> string list \<Rightarrow> string" where
  "join sep [] = []"
| "join sep [x] = x"
| "join sep (x # y # ys) = x @ sep @ join sep (y # ys)"

text \<open>
  \<open>refreshTitleState(term)\<close> (second revision; the first revision is the same body as a
  closure over \<open>term\<close> and \<open>title\<close>): nothing happens without a \<open>.title\<close> child,
  otherwise its \<open>data-state\<close> attribute is set to the joined state words.
\<close>

definition title_states :: "element \<Rightarrow> string list" where
  "title_states e =
     (let states = [];
          states = (if cl_contains (classList e) ''closed'' then states @ [''cerrada''] else states);
          states = (if cl_contains (classList e) ''minimized'' then states @ [''minimizada''] else states);
          states = (if cl_contains (classList e) ''maxwide'' then states @ [''max''] else states)
      in states)"

definition refreshTitleState :: "element \<Rightarrow> element" where
  "refreshTitleState e =
     (case title_state e of
        None \<Rightarrow> e
      | Some old \<Rightarrow> e\<lparr>title_state := Some (join '' '' (title_states e))\<rparr>)"

section \<open>Geometry and effects\<close>

text \<open>
  Lengths are JavaScript numbers; they are modelled as exact rationals. What the script
  reads from the browser at the time of a call is collected in a \<open>window\<close> record: the
  height of the \<open>.toolbar\<close> element (\<open>None\<close> when there is none), \<open>window.scrollY\<close>,
  \<open>window.innerHeight\<close>, the bounding rectangle of each element, whether
  \<open>history.replaceState\<close> succeeds, and whether \<open>window.__scrollAdjusted\<close> is set.
\<close>

record DOMRect =
  rect_top :: rat
  rect_bottom :: rat
  rect_height :: rat

record window =
  toolbar_height :: "rat option"
  scrollY :: rat
  innerHeight :: rat
  rect_of :: "nat \<Rightarrow> DOMRect"
  history_ok :: bool
  scrollAdjusted_exposed :: bool

datatype behavior = Smooth | Auto

text \<open>The variables a re-validation callback has captured when it is scheduled.\<close>

record revalidation =
  rv_term :: nat
  rv_offset :: rat
  rv_viewportHeight :: rat
  rv_fitsInViewport :: bool
  rv_forceAdjust :: bool

datatype callback =
    Revalidate revalidation
  | OpenFocusScroll string bool

datatype effect =
    ScrollTo rat behavior
  | ScrollBy rat behavior
  | ScrollIntoView nat
  | SetTimeout callback nat
  | ReplaceState string
  | ConsoleError

text \<open>
  The page state: the document, \<open>location.hash\<close>, the effects issued so far, and the
  elements for which a change of the \<open>class\<close> attribute is waiting to be reported to the
  \<open>MutationObserver\<close>s (every \<open>classList\<close> call on an element sets its attribute).
\<close>

record page =
  doc :: document
  location_hash :: string
  effects :: "effect list"
  records :: "nat list"

section \<open>Scrolling\<close>

definition getToolbarOffset :: "window \<Rightarrow> rat" where
  "getToolbarOffset w = (case toolbar_height w of Some h \<Rightarrow> h | None \<Rightarrow> 0) + 12"

text \<open>\<open>scrollAdjusted(term, forceAdjust)\<close>, second revision.\<close>

definition scrollAdjusted :: "window \<Rightarrow> nat \<Rightarrow> bool \<Rightarrow> effect list" where
  "scrollAdjusted w t forceAdjust =
     (let offset = getToolbarOffset w;
          termRect = rect_of w t;
          absoluteTermTop = scrollY w + rect_top termRect;
          viewportHeight = innerHeight w;
          fitsInViewport = (rect_height termRect + offset + 16 \<le> viewportHeight);
          targetScrollTop =
            (if fitsInViewport
             then max 0 (absoluteTermTop - (viewportHeight - rect_height termRect) / 2)
             else max 0 (absoluteTermTop - offset - 8))
      in [ScrollTo targetScrollTop Smooth,
          SetTimeout (Revalidate \<lparr>rv_term = t, rv_offset = offset,
                        rv_viewportHeight = viewportHeight,
                        rv_fitsInViewport = fitsInViewport,
                        rv_forceAdjust = forceAdjust\<rparr>) 450])"

text \<open>
  The body of the timeout callback of the second revision; \<open>r\<close> is the rectangle that
  \<open>term.getBoundingClientRect()\<close> returns when the callback runs.
\<close>

definition revalidate :: "revalidation \<Rightarrow> DOMRect \<Rightarrow> effect list" where
  "revalidate c r =
     (if rect_top r < rv_offset c + 6
      then [ScrollBy (rect_top r - (rv_offset c + 6)) Auto] else [])
     @ (if rect_bottom r > rv_viewportHeight c - 8 \<and> (rv_fitsInViewport c \<or> rv_forceAdjust c)
        then [ScrollBy (rect_bottom r - (rv_viewportHeight c - 8)) Auto] else [])"

text \<open>The same two functions as the first revision of the script writes them.\<close>

definition scrollAdjusted_v1 :: "window \<Rightarrow> nat \<Rightarrow> bool \<Rightarrow> effect list" where
  "scrollAdjusted_v1 w t forceAdjust =
     (let offset = getToolbarOffset w;
          termRect = rect_of w t;
          absoluteTermTop = scrollY w + rect_top termRect;
          viewportHeight = innerHeight w;
          fitsInViewport = (rect_height termRect + offset + 16 \<le> viewportHeight);
          targetScrollTop =
            (if fitsInViewport
             then max 0 (absoluteTermTop - (viewportHeight - rect_height termRect) / 2)
             else max 0 (absoluteTermTop - offset - 8))
      in [ScrollTo targetScrollTop Smooth,
          SetTimeout (Revalidate \<lparr>rv_term = t, rv_offset = offset,
                        rv_viewportHeight = viewportHeight,
                        rv_fitsInViewport = fitsInViewport,
                        rv_forceAdjust = forceAdjust\<rparr>) 450])"

definition revalidate_v1 :: "revalidation \<Rightarrow> DOMRect \<Rightarrow> effect list" where
  "revalidate_v1 c r =
     (if rect_top r < rv_offset c + 6
      then [ScrollBy (rect_top r - (rv_offset c + 6)) Auto] else [])
     @ (if rect_bottom r > rv_viewportHeight c - 8 \<and> (rv_fitsInViewport c \<or> rv_forceAdjust c)
        then [ScrollBy (rect_bottom r - (rv_viewportHeight c - 8)) Auto] else [])"

section \<open>Opening a panel\<close>

text \<open>
  \<open>IDs_TO_ADJUST_SCROLL\<close>: a fixed set in the first revision; in the second revision the
  ids of the elements matching \<open>.terminal[data-adjust-scroll]\<close> when the script starts.
\<close>

definition IDs_TO_ADJUST_SCROLL_v1 :: "string list" where
  "IDs_TO_ADJUST_SCROLL_v1 = [''about'', ''education'', ''experience'']"

definition IDs_TO_ADJUST_SCROLL :: "document \<Rightarrow> string list" where
  "IDs_TO_ADJUST_SCROLL d0 =
     map el_id (filter (\<lambda>e. is_terminal e \<and> data_adjust_scroll e) d0)"

text \<open>
  \<open>openFocusScroll(id, forceAdjust)\<close>, second revision; \<open>ids\<close> is the set
  \<open>IDs_TO_ADJUST_SCROLL\<close> the script computed when it started.
\<close>

definition openFocusScroll :: "string list \<Rightarrow> window \<Rightarrow> page \<Rightarrow> string \<Rightarrow> bool \<Rightarrow> page" where
  "openFocusScroll ids w p i forceAdjust =
     (case getElementById (doc p) i of
        None \<Rightarrow> p
      | Some t \<Rightarrow>
          (let p1 = p\<lparr>doc := focusTerminal (doc p) t,
                      records := records p @ maximized_indices (doc p) @ [t, t]\<rparr>;
               shouldAdjust = (forceAdjust \<or> i \<in> set ids);
               p2 = (if shouldAdjust
                     then p1\<lparr>effects := effects p1 @ scrollAdjusted w t forceAdjust\<rparr>
                     else p1)
           in if history_ok w
              then p2\<lparr>location_hash := ''#'' @ i, effects := effects p2 @ [ReplaceState (''#'' @ i)]\<rparr>
              else p2\<lparr>effects := effects p2 @ [ConsoleError]\<rparr>))"

definition openFocusScroll_v1 :: "window \<Rightarrow> page \<Rightarrow> string \<Rightarrow> bool \<Rightarrow> page" where
  "openFocusScroll_v1 w p i forceAdjust =
     (case getElementById (doc p) i of
        None \<Rightarrow> p
      | Some t \<Rightarrow>
          (let p1 = p\<lparr>doc := focusTerminal (doc p) t,
                      records := records p @ maximized_indices (doc p) @ [t, t]\<rparr>;
               shouldAdjust = (forceAdjust \<or> i \<in> set IDs_TO_ADJUST_SCROLL_v1);
               p2 = (if shouldAdjust
                     then p1\<lparr>effects := effects p1 @ scrollAdjusted_v1 w t forceAdjust\<rparr>
                     else p1)
           in if history_ok w
              then p2\<lparr>location_hash := ''#'' @ i, effects := effects p2 @ [ReplaceState (''#'' @ i)]\<rparr>
              else p2\<lparr>effects := effects p2 @ [ConsoleError]\<rparr>))"

section \<open>Window controls\<close>

text \<open>
  \<open>el.closest('.c')\<close>: the click target is given by its chain of inclusive ancestors,
  innermost first; the result is the rest of the chain from the first element with class
  \<open>c\<close> on (empty for null).
\<close>

definition closest :: "document \<Rightarrow> string \<Rightarrow> nat list \<Rightarrow> nat list" where
  "closest d c path =
     dropWhile (\<lambda>k. \<not> (k < length d \<and> cl_contains (classList (d ! k)) c)) path"

text \<open>The three branches of the delegated click handler of the second revision.\<close>

definition red_branch :: "page \<Rightarrow> nat \<Rightarrow> page" where
  "red_branch p t =
     (let d1 = modify t (on_classes (\<lambda>cl. cl_toggle cl ''closed'')) (doc p);
          d2 = modify t (on_classes (\<lambda>cl. cl_remove cl [''minimized'', ''maxwide''])) d1
      in p\<lparr>doc := d2, records := records p @ [t, t]\<rparr>)"

definition yellow_branch :: "page \<Rightarrow> nat \<Rightarrow> page" where
  "yellow_branch p t =
     (let d1 = modify t (on_classes (\<lambda>cl. cl_toggle cl ''minimized'')) (doc p);
          d2 = modify t (on_classes (\<lambda>cl. cl_remove cl [''closed'', ''maxwide''])) d1
      in p\<lparr>doc := d2, records := records p @ [t, t]\<rparr>)"

definition green_branch :: "window \<Rightarrow> page \<Rightarrow> nat \<Rightarrow> page" where
  "green_branch w p t =
     (let wasMaximized = cl_contains (classList (doc p ! t)) ''maxwide'';
          d1 = unmaximize_all (doc p);
          d2 = modify t (on_classes (\<lambda>cl. cl_remove cl [''closed'', ''minimized''])) d1;
          rs = records p @ maximized_indices (doc p) @ [t]
      in if \<not> wasMaximized
         then p\<lparr>doc := modify t (on_classes (\<lambda>cl. cl_add cl ''maxwide'')) d2,
                effects := effects p @
                  (if scrollAdjusted_exposed w then scrollAdjusted w t True
                   else [ScrollIntoView t]),
                records := rs @ [t]\<rparr>
         else p\<lparr>doc := d2, records := rs\<rparr>)"

definition click_handler :: "window \<Rightarrow> page \<Rightarrow> nat list \<Rightarrow> page" where
  "click_handler w p target =
     (case closest (doc p) ''dot'' target of
        [] \<Rightarrow> p
      | btn # outer \<Rightarrow>
          (case closest (doc p) ''terminal'' (btn # outer) of
             [] \<Rightarrow> p
           | t # rest \<Rightarrow>
               (let cl = classList (doc p ! btn);
                    p1 = (if cl_contains cl ''red'' then red_branch p t
                          else if cl_contains cl ''yellow'' then yellow_branch p t
                          else if cl_contains cl ''green'' then green_branch w p t
                          else p)
                in p1\<lparr>doc := modify t refreshTitleState (doc p1)\<rparr>)))"

text \<open>
  The first revision attaches one listener per button of each \<open>.terminal\<close> element
  \<open>term\<close>; \<open>t\<close> is the index of that element.
\<close>

definition redBtn_click_v1 :: "page \<Rightarrow> nat \<Rightarrow> page" where
  "redBtn_click_v1 p t =
     (let d1 = modify t (on_classes (\<lambda>cl. cl_toggle cl ''closed'')) (doc p);
          d2 = modify t (on_classes (\<lambda>cl. cl_remove cl [''minimized'', ''maxwide''])) d1
      in p\<lparr>doc := modify t refreshTitleState d2, records := records p @ [t, t]\<rparr>)"

definition yellowBtn_click_v1 :: "page \<Rightarrow> nat \<Rightarrow> page" where
  "yellowBtn_click_v1 p t =
     (let d1 = modify t (on_classes (\<lambda>cl. cl_toggle cl ''minimized'')) (doc p);
          d2 = modify t (on_classes (\<lambda>cl. cl_remove cl [''closed'', ''maxwide''])) d1
      in p\<lparr>doc := modify t refreshTitleState d2, records := records p @ [t, t]\<rparr>)"

definition greenBtn_click_v1 :: "window \<Rightarrow> page \<Rightarrow> nat \<Rightarrow> page" where
  "greenBtn_click_v1 w p t =
     (let wasMaximized = cl_contains (classList (doc p ! t)) ''maxwide'';
          d1 = unmaximize_all (doc p);
          d2 = modify t (on_classes (\<lambda>cl. cl_remove cl [''closed'', ''minimized''])) d1;
          rs = records p @ maximized_indices (doc p) @ [t];
          p1 = (if \<not> wasMaximized
                then p\<lparr>doc := modify t (on_classes (\<lambda>cl. cl_add cl ''maxwide'')) d2,
                       effects := effects p @
                         (if scrollAdjusted_exposed w then scrollAdjusted_v1 w t True
                          else [ScrollIntoView t]),
                       records := rs @ [t]\<rparr>
                else p\<lparr>doc := d2, records := rs\<rparr>)
      in p1\<lparr>doc := modify t refreshTitleState (doc p1)\<rparr>)"

section \<open>Page load and sequences of user actions\<close>

text \<open>
  The last statements of the navigation script: \<open>hash\<close> is \<open>location.hash\<close>, which is
  empty or starts with \<open>#\<close>.
\<close>

definition initial_navigation :: "string \<Rightarrow> effect list" where
  "initial_navigation hash =
     (let initialHash = (if hash \<noteq> [] then drop 1 hash else ''about'')
      in if initialHash \<noteq> [] then [SetTimeout (OpenFocusScroll initialHash True) 100] else [])"

definition initial_navigation_v1 :: "string \<Rightarrow> effect list" where
  "initial_navigation_v1 hash =
     (let initialHash = (if hash \<noteq> [] then drop 1 hash else [])
      in if initialHash \<noteq> [] then [SetTimeout (OpenFocusScroll initialHash True) 100] else [])"

text \<open>Running a callback when its timer fires, with the browser state of that moment.\<close>

definition fire :: "string list \<Rightarrow> window \<Rightarrow> page \<Rightarrow> callback \<Rightarrow> page" where
  "fire ids w p cb =
     (case cb of
        Revalidate c \<Rightarrow> p\<lparr>effects := effects p @ revalidate c (rect_of w (rv_term c))\<rparr>
      | OpenFocusScroll i forceAdjust \<Rightarrow> openFocusScroll ids w p i forceAdjust)"

text \<open>
  What can happen to the page after load: a click somewhere (given by the ancestor chain
  of its target), a click on an index link (which calls \<open>openFocusScroll(targetId, true)\<close>),
  or a timer firing. Each comes with the browser state it reads.
\<close>

datatype action = Click "nat list" | IndexLink string | Timer callback

definition handle :: "string list \<Rightarrow> page \<Rightarrow> window \<times> action \<Rightarrow> page" where
  "handle ids p wa =
     (case snd wa of
        Click target \<Rightarrow> click_handler (fst wa) p target
      | IndexLink i \<Rightarrow> openFocusScroll ids (fst wa) p i True
      | Timer cb \<Rightarrow> fire ids (fst wa) p cb)"

text \<open>
  When a handler has returned, the browser reports the waiting attribute changes: each
  \<open>.terminal\<close> element has its own observer (\<open>attributeFilter: ['class']\<close>), whose
  callback is \<open>refreshTitleState(term)\<close>.
\<close>

definition deliver_records :: "page \<Rightarrow> page" where
  "deliver_records p =
     p\<lparr>doc := map (\<lambda>j. if j \<in> set (records p) \<and> is_terminal (doc p ! j)
                         then refreshTitleState (doc p ! j) else doc p ! j)
                  [0..<length (doc p)],
       records := []\<rparr>"

definition step :: "string list \<Rightarrow> page \<Rightarrow> window \<times> action \<Rightarrow> page" where
  "step ids p wa = deliver_records (handle ids p wa)"

text \<open>
  The loop over \<open>.terminal\<close> elements when the window-control script starts: it installs
  the observers and refreshes every title once.
\<close>

definition startup_titles :: "document \<Rightarrow> document" where
  "startup_titles d = map (\<lambda>e. if is_terminal e then refreshTitleState e else e) d"

definition run :: "string list \<Rightarrow> page \<Rightarrow> (window \<times> action) list \<Rightarrow> page" where
  "run ids p as = foldl (step ids) p as"

text \<open>The panels that are maximized: elements with both \<open>terminal\<close> and \<open>maxwide\<close>.\<close>

definition maximized_panels :: "document \<Rightarrow> element list" where
  "maximized_panels d = filter (\<lambda>e. is_terminal e \<and> is_maximized e) d"

definition at_most_one_flag :: "element \<Rightarrow> bool" where
  "at_most_one_flag e =
     (\<not> (is_closed e \<and> is_minimized e) \<and> \<not> (is_closed e \<and> is_maximized e) \<and> \<not> (is_minimized e \<and> is_maximized e))"

text \<open>Flag exclusivity for every element of the document.\<close>

definition flags_exclusive :: "document \<Rightarrow> bool" where
  "flags_exclusive d = list_all at_most_one_flag d"

definition at_most_one_maximized :: "document \<Rightarrow> bool" where
  "at_most_one_maximized d = (length (maximized_panels d) \<le> 1)"

section \<open>Statements of the specification\<close>

text \<open>
  The contract the specification gives for toggleClosed, between the document before
  (\<open>d\<close>) and after (\<open>d'\<close>) a click on the red button of panel \<open>t\<close>: the closed flag
  is flipped; if it is now set, the panel is neither minimized nor maximized; if it is now
  clear, no other flag of any element has changed.
\<close>

definition toggleClosed_contract :: "document \<Rightarrow> document \<Rightarrow> nat \<Rightarrow> bool" where
  "toggleClosed_contract d d' t =
     (is_closed (d' ! t) = (\<not> is_closed (d ! t)) \<and>
      (is_closed (d' ! t) \<longrightarrow> \<not> is_minimized (d' ! t) \<and> \<not> is_maximized (d' ! t)) \<and>
      (\<not> is_closed (d' ! t) \<longrightarrow>
         (\<forall>j < length d'.
            is_minimized (d' ! j) = is_minimized (d ! j) \<and>
            is_maximized (d' ! j) = is_maximized (d ! j) \<and>
            (j \<noteq> t \<longrightarrow> is_closed (d' ! j) = is_closed (d ! j)))))"

text \<open>
  What a click on the red button of panel \<open>t\<close> does in every state: the closed flag is
  flipped, \<open>minimized\<close> and \<open>maxwide\<close> are gone, and no other element changes its
  classes.
\<close>

definition red_button_effect :: "document \<Rightarrow> document \<Rightarrow> nat \<Rightarrow> bool" where
  "red_button_effect d d' t =
     (is_closed (d' ! t) = (\<not> is_closed (d ! t)) \<and>
      \<not> is_minimized (d' ! t) \<and> \<not> is_maximized (d' ! t) \<and>
      (\<forall>j < length d. j \<noteq> t \<longrightarrow> classList (d' ! j) = classList (d ! j)))"

text \<open>
  The label of a panel as the specification describes it: the words of the flags that are
  set, in the order closed, minimized, max, joined by spaces. \<open>title_label\<close> uses the
  words of the script, \<open>spec_title_label\<close> the words of the specification.
\<close>

definition title_label :: "bool \<Rightarrow> bool \<Rightarrow> bool \<Rightarrow> string" where
  "title_label c m x =
     join '' '' (map snd (filter fst [(c, ''cerrada''), (m, ''minimizada''), (x, ''max'')]))"

definition spec_title_label :: "bool \<Rightarrow> bool \<Rightarrow> bool \<Rightarrow> string" where
  "spec_title_label c m x =
     join '' '' (map snd (filter fst [(c, ''closed''), (m, ''minimized''), (x, ''max'')]))"

text \<open>
  A title is in sync when its \<open>data-state\<close> is the label of the element's current
  flags (an element without title has nothing to show).
\<close>

definition title_in_sync :: "element \<Rightarrow> bool" where
  "title_in_sync e =
     (case title_state e of
        None \<Rightarrow> True
      | Some s \<Rightarrow> s = title_label (is_closed e) (is_minimized e) (is_maximized e))"

definition titles_in_sync :: "document \<Rightarrow> bool" where
  "titles_in_sync d = list_all (\<lambda>e. is_terminal e \<longrightarrow> title_in_sync e) d"

text \<open>A handler result in which every panel whose classes may have changed is either
  refreshed already or has a record waiting.\<close>

definition covered :: "page \<Rightarrow> page \<Rightarrow> bool" where
  "covered p p' =
     (length (doc p') = length (doc p) \<and>
      (\<forall>j < length (doc p).
          j \<in> set (records p') \<or> title_in_sync (doc p' ! j) \<or>
          (classList (doc p' ! j) = classList (doc p ! j) \<and>
           title_state (doc p' ! j) = title_state (doc p ! j))))"


text \<open>The panel an id resolves to: the first \<open>.terminal\<close> element with that id.\<close>

definition panel_with_id :: "document \<Rightarrow> string \<Rightarrow> nat option" where
  "panel_with_id d i = index_of (\<lambda>e. is_terminal e \<and> el_id e = i) d"

text \<open>The part of an effect list that concerns the URL.\<close>

definition history_effects :: "effect list \<Rightarrow> effect list" where
  "history_effects es =
     filter (\<lambda>e. case e of ReplaceState u \<Rightarrow> True | ConsoleError \<Rightarrow> True | _ \<Rightarrow> False) es"

text \<open>A closed panel whose title has not been refreshed yet.\<close>

definition closed_panel :: element where
  "closed_panel = \<lparr>el_id = ''about'', classList = [''terminal'', ''closed''],
     data_adjust_scroll = True, title_state = Some []\<rparr>"

section \<open>A small page\<close>

text \<open>
  A page in the shape the scripts expect: the container
  \<open>#desk\<close> (not a panel), the panels \<open>#about\<close> and \<open>#skills\<close>, each with a title, and
  one window button in each. At startup no panel carries a state class.
\<close>

definition startup_doc :: document where
  "startup_doc =
     [\<lparr>el_id = ''desk'', classList = [], data_adjust_scroll = False, title_state = None\<rparr>,
      \<lparr>el_id = ''about'', classList = [''terminal''], data_adjust_scroll = True,
        title_state = Some []\<rparr>,
      \<lparr>el_id = [], classList = [''dot'', ''red''], data_adjust_scroll = False,
        title_state = None\<rparr>,
      \<lparr>el_id = ''skills'', classList = [''terminal''], data_adjust_scroll = True,
        title_state = Some []\<rparr>,
      \<lparr>el_id = [], classList = [''dot'', ''green''], data_adjust_scroll = False,
        title_state = None\<rparr>]"

definition startup_page :: page where
  "startup_page = \<lparr>doc = startup_doc, location_hash = [], effects = [], records = []\<rparr>"

text \<open>The same page later: \<open>#about\<close> is maximized and \<open>#skills\<close> is minimized.\<close>

definition example_doc :: document where
  "example_doc =
     [\<lparr>el_id = ''desk'', classList = [], data_adjust_scroll = False, title_state = None\<rparr>,
      \<lparr>el_id = ''about'', classList = [''terminal'', ''maxwide''], data_adjust_scroll = True,
        title_state = Some ''max''\<rparr>,
      \<lparr>el_id = [], classList = [''dot'', ''red''], data_adjust_scroll = False,
        title_state = None\<rparr>,
      \<lparr>el_id = ''skills'', classList = [''terminal'', ''minimized''],
        data_adjust_scroll = True, title_state = Some ''minimizada''\<rparr>,
      \<lparr>el_id = [], classList = [''dot'', ''green''], data_adjust_scroll = False,
        title_state = None\<rparr>]"

definition example_page :: page where
  "example_page = \<lparr>doc = example_doc, location_hash = ''#about'', effects = [], records = []\<rparr>"

text \<open>
  A browser state: a toolbar 38 high, the page scrolled to 1000, a viewport 800 high, and
  every element laid out from 400 to 700 in the viewport.
\<close>

definition example_window :: window where
  "example_window =
     \<lparr>toolbar_height = Some 38, scrollY = 1000, innerHeight = 800,
      rect_of = (\<lambda>t. \<lparr>rect_top = 400, rect_bottom = 700, rect_height = 300\<rparr>),
      history_ok = True, scrollAdjusted_exposed = True\<rparr>"


section \<open>Basic facts\<close>

lemma length_modify [simp]: "length (modify t f d) = length d"
  by (simp add: modify_def)

lemma nth_modify:
  "j < length d \<Longrightarrow> modify t f d ! j = (if j = t then f (d ! j) else d ! j)"
  by (simp add: modify_def)

lemma length_unmaximize_all [simp]: "length (unmaximize_all d) = length d"
  by (simp add: unmaximize_all_def)

lemma nth_unmaximize_all:
  "j < length d \<Longrightarrow>
     unmaximize_all d ! j =
       (if is_terminal (d ! j) \<and> is_maximized (d ! j)
        then on_classes (\<lambda>cl. cl_remove cl [''maxwide'']) (d ! j) else d ! j)"
  by (simp add: unmaximize_all_def)

lemma length_focusTerminal [simp]: "length (focusTerminal d t) = length d"
  by (simp add: focusTerminal_def Let_def)

lemma index_of_Some:
  "index_of P d = Some t \<Longrightarrow> t < length d \<and> P (d ! t)"
proof (induction d arbitrary: t)
  case Nil
  then show ?case by simp
next
  case (Cons e es)
  show ?case
  proof (cases "P e")
    case True
    with Cons.prems show ?thesis by simp
  next
    case False
    with Cons.prems obtain k where k: "index_of P es = Some k" "t = Suc k"
      by auto
    from Cons.IH [OF k(1)] k(2) show ?thesis by simp
  qed
qed

lemma getElementById_Some:
  "getElementById d i = Some t \<Longrightarrow> t < length d \<and> el_id (d ! t) = i \<and> i \<noteq> []"
  by (auto simp: getElementById_def dest: index_of_Some split: if_splits)

subsection \<open>Class lists and focusTerminal\<close>

lemma classList_on_classes [simp]: "classList (on_classes f e) = f (classList e)"
  by (simp add: on_classes_def)

lemma cl_contains_remove [simp]:
  "cl_contains (cl_remove cl cs) c = (cl_contains cl c \<and> c \<notin> set cs)"
  by (auto simp: cl_contains_def cl_remove_def)

lemma cl_contains_add [simp]:
  "cl_contains (cl_add cl x) c = (cl_contains cl c \<or> c = x)"
  by (auto simp: cl_contains_def cl_add_def)

lemma cl_contains_toggle [simp]:
  "cl_contains (cl_toggle cl x) c = (if c = x then \<not> cl_contains cl c else cl_contains cl c)"
  by (auto simp: cl_contains_def cl_toggle_def)

lemma flags_on_classes [simp]:
  "is_terminal (on_classes f e) = cl_contains (f (classList e)) ''terminal''"
  "is_closed (on_classes f e) = cl_contains (f (classList e)) ''closed''"
  "is_minimized (on_classes f e) = cl_contains (f (classList e)) ''minimized''"
  "is_maximized (on_classes f e) = cl_contains (f (classList e)) ''maxwide''"
  by (simp_all add: is_terminal_def is_closed_def is_minimized_def is_maximized_def)

lemma nth_focusTerminal:
  "j < length d \<Longrightarrow>
   focusTerminal d t ! j =
     (if j = t
      then on_classes (\<lambda>cl. cl_add cl ''maxwide'')
             (on_classes (\<lambda>cl. cl_remove cl [''closed'', ''minimized'']) (unmaximize_all d ! j))
      else unmaximize_all d ! j)"
  by (simp add: focusTerminal_def Let_def nth_modify)

lemma focus_target:
  assumes "t < length d"
  shows "\<not> is_closed (focusTerminal d t ! t)" "\<not> is_minimized (focusTerminal d t ! t)" "is_maximized (focusTerminal d t ! t)"
  using assms by (simp_all add: nth_focusTerminal)

lemma focus_others:
  assumes "j < length d" "j \<noteq> t" "is_terminal (d ! j)"
  shows "\<not> is_maximized (focusTerminal d t ! j)"
  using assms by (simp add: nth_focusTerminal nth_unmaximize_all is_maximized_def is_terminal_def)

lemma focus_idem: "focusTerminal (focusTerminal d t) t = focusTerminal d t"
proof (rule nth_equalityI)
  show "length (focusTerminal (focusTerminal d t) t) = length (focusTerminal d t)" by simp
next
  fix j assume "j < length (focusTerminal (focusTerminal d t) t)"
  then have j: "j < length d" by simp
  show "focusTerminal (focusTerminal d t) t ! j = focusTerminal d t ! j"
  proof (cases "j = t")
    case False
    with j show ?thesis
      by (simp add: nth_focusTerminal nth_unmaximize_all)
  next
    case True
    with j show ?thesis
      apply (simp add: nth_focusTerminal nth_unmaximize_all)
      apply (auto simp: on_classes_def cl_add_def cl_remove_def cl_contains_def is_terminal_def is_maximized_def filter_id_conv
             intro!: arg_cong[where f="\<lambda>x. classList_update (\<lambda>_. x) (d ! t)"] filter_cong)
      done
  qed
qed

subsection \<open>Counting maximized panels\<close>

lemma closest_Cons:
  "closest d c path = k # r \<Longrightarrow> k < length d \<and> cl_contains (classList (d ! k)) c"
  by (auto simp: closest_def dropWhile_eq_Cons_conv)

lemma classList_refreshTitleState [simp]: "classList (refreshTitleState e) = classList e"
  by (simp add: refreshTitleState_def split: option.splits)

lemma flags_refreshTitleState [simp]:
  "is_terminal (refreshTitleState e) = is_terminal e"
  "is_closed (refreshTitleState e) = is_closed e"
  "is_minimized (refreshTitleState e) = is_minimized e"
  "is_maximized (refreshTitleState e) = is_maximized e"
  by (simp_all add: is_terminal_def is_closed_def is_minimized_def is_maximized_def)

lemma filter_update_le:
  "t < length d \<Longrightarrow> (P x \<Longrightarrow> P (d ! t)) \<Longrightarrow>
     length (filter P (d[t := x])) \<le> length (filter P d)"
  by (induction d arbitrary: t) (auto split: nat.splits)

lemma filter_update_empty:
  "filter P d = [] \<Longrightarrow> length (filter P (d[t := x])) \<le> 1"
  by (induction d arbitrary: t) (auto split: nat.splits if_splits)

lemma modify_keeps:
  "(t < length d \<Longrightarrow> is_terminal (f (d ! t)) \<and> is_maximized (f (d ! t)) \<Longrightarrow> is_terminal (d ! t) \<and> is_maximized (d ! t)) \<Longrightarrow>
     length (maximized_panels (modify t f d)) \<le> length (maximized_panels d)"
  unfolding maximized_panels_def modify_def
  by (auto intro!: filter_update_le)

lemma modify_one:
  "maximized_panels d = [] \<Longrightarrow> length (maximized_panels (modify t f d)) \<le> 1"
  unfolding maximized_panels_def modify_def
  using filter_update_empty [of "\<lambda>e. is_terminal e \<and> is_maximized e" d t "f (d ! t)"]
  by auto

lemma unmaximize_all_none: "maximized_panels (unmaximize_all d) = []"
  by (auto simp: maximized_panels_def unmaximize_all_def filter_empty_conv)

lemma focusTerminal_one: "at_most_one_maximized (focusTerminal d t)"
proof -
  let ?d2 = "modify t (on_classes (\<lambda>cl. cl_remove cl [''closed'', ''minimized''])) (unmaximize_all d)"
  have "length (maximized_panels ?d2) \<le> length (maximized_panels (unmaximize_all d))"
    by (rule modify_keeps) (simp add: is_terminal_def is_maximized_def)
  then have "maximized_panels ?d2 = []"
    by (simp add: unmaximize_all_none)
  then show ?thesis
    unfolding focusTerminal_def Let_def at_most_one_maximized_def by (rule modify_one)
qed

lemma red_branch_le:
  "length (maximized_panels (doc (red_branch p t))) \<le> length (maximized_panels (doc p))"
proof -
  let ?d1 = "modify t (on_classes (\<lambda>cl. cl_toggle cl ''closed'')) (doc p)"
  have "length (maximized_panels ?d1) \<le> length (maximized_panels (doc p))"
    by (rule modify_keeps) (simp add: is_terminal_def is_maximized_def)
  moreover have "length (maximized_panels (modify t (on_classes (\<lambda>cl. cl_remove cl [''minimized'', ''maxwide''])) ?d1))
       \<le> length (maximized_panels ?d1)"
    by (rule modify_keeps) (simp add: is_terminal_def is_maximized_def)
  ultimately show ?thesis by (simp add: red_branch_def Let_def)
qed

lemma yellow_branch_le:
  "length (maximized_panels (doc (yellow_branch p t))) \<le> length (maximized_panels (doc p))"
proof -
  let ?d1 = "modify t (on_classes (\<lambda>cl. cl_toggle cl ''minimized'')) (doc p)"
  have "length (maximized_panels ?d1) \<le> length (maximized_panels (doc p))"
    by (rule modify_keeps) (simp add: is_terminal_def is_maximized_def)
  moreover have "length (maximized_panels (modify t (on_classes (\<lambda>cl. cl_remove cl [''closed'', ''maxwide''])) ?d1))
       \<le> length (maximized_panels ?d1)"
    by (rule modify_keeps) (simp add: is_terminal_def is_maximized_def)
  ultimately show ?thesis by (simp add: yellow_branch_def Let_def)
qed

lemma green_branch_one:
  "at_most_one_maximized (doc (green_branch w p t))"
proof -
  let ?d2 = "modify t (on_classes (\<lambda>cl. cl_remove cl [''closed'', ''minimized''])) (unmaximize_all (doc p))"
  have "length (maximized_panels ?d2) \<le> length (maximized_panels (unmaximize_all (doc p)))"
    by (rule modify_keeps) (simp add: is_terminal_def is_maximized_def)
  then have e: "maximized_panels ?d2 = []"
    by (simp add: unmaximize_all_none)
  from modify_one [OF e] e show ?thesis
    by (simp add: green_branch_def Let_def at_most_one_maximized_def)
qed

lemma refresh_le:
  "length (maximized_panels (modify t refreshTitleState d)) \<le> length (maximized_panels d)"
  by (rule modify_keeps) (simp add: is_terminal_def is_maximized_def)

lemma click_handler_inv:
  assumes "at_most_one_maximized (doc p)"
  shows "at_most_one_maximized (doc (click_handler w p target))"
proof -
  have r: "at_most_one_maximized (doc (red_branch p t))" for t
    using red_branch_le [of p t] assms by (simp add: at_most_one_maximized_def)
  have y: "at_most_one_maximized (doc (yellow_branch p t))" for t
    using yellow_branch_le [of p t] assms by (simp add: at_most_one_maximized_def)
  have f: "at_most_one_maximized d \<Longrightarrow>
           at_most_one_maximized (modify t refreshTitleState d)" for t d
    using refresh_le [of t d] by (simp add: at_most_one_maximized_def)
  show ?thesis
    using assms
    by (auto simp: click_handler_def Let_def r y f green_branch_one split: list.splits)
qed

lemma openFocusScroll_inv:
  assumes "at_most_one_maximized (doc p)"
  shows "at_most_one_maximized (doc (openFocusScroll ids w p i f))"
  using assms
  by (auto simp: openFocusScroll_def Let_def focusTerminal_one split: option.splits)

lemma handle_inv:
  assumes "at_most_one_maximized (doc p)"
  shows "at_most_one_maximized (doc (handle ids p wa))"
  using assms
  by (auto simp: handle_def fire_def click_handler_inv openFocusScroll_inv split: action.splits callback.splits)

lemma maximized_panels_classes:
  "map classList d' = map classList d \<Longrightarrow>
     length (maximized_panels d') = length (maximized_panels d)"
proof (induction d arbitrary: d')
  case Nil
  then show ?case by simp
next
  case (Cons e es)
  then obtain e' es' where d': "d' = e' # es'" "classList e' = classList e"
      "map classList es' = map classList es"
    by (cases d') auto
  from Cons.IH [OF d'(3)] d'(1,2) show ?case
    by (simp add: maximized_panels_def is_terminal_def is_maximized_def)
qed

lemma classes_deliver_records:
  "map classList (doc (deliver_records p)) = map classList (doc p)"
  by (rule nth_equalityI) (simp_all add: deliver_records_def)

lemma deliver_records_inv:
  "at_most_one_maximized (doc (deliver_records p)) = at_most_one_maximized (doc p)"
  by (simp add: at_most_one_maximized_def maximized_panels_classes [OF classes_deliver_records])

lemma step_inv:
  assumes "at_most_one_maximized (doc p)"
  shows "at_most_one_maximized (doc (step ids p wa))"
  using assms by (simp add: step_def deliver_records_inv handle_inv)

lemma run_inv:
  "at_most_one_maximized (doc p) \<Longrightarrow> at_most_one_maximized (doc (run ids p as))"
  unfolding run_def
  by (induction as arbitrary: p) (simp_all add: step_inv)

lemma is_terminal_focusTerminal:
  "j < length d \<Longrightarrow> is_terminal (focusTerminal d t ! j) = is_terminal (d ! j)"
  by (simp add: nth_focusTerminal nth_unmaximize_all) (simp add: is_terminal_def)

subsection \<open>The three branches, element by element\<close>

lemma length_branches [simp]:
  "length (doc (red_branch p t)) = length (doc p)"
  "length (doc (yellow_branch p t)) = length (doc p)"
  "length (doc (green_branch w p t)) = length (doc p)"
  by (simp_all add: red_branch_def yellow_branch_def green_branch_def Let_def)

lemma nth_red_branch:
  "j < length (doc p) \<Longrightarrow>
   doc (red_branch p t) ! j =
     (if j = t
      then on_classes (\<lambda>cl. cl_remove (cl_toggle cl ''closed'') [''minimized'', ''maxwide'']) (doc p ! j)
      else doc p ! j)"
  by (simp add: red_branch_def Let_def nth_modify on_classes_def)

lemma nth_yellow_branch:
  "j < length (doc p) \<Longrightarrow>
   doc (yellow_branch p t) ! j =
     (if j = t
      then on_classes (\<lambda>cl. cl_remove (cl_toggle cl ''minimized'') [''closed'', ''maxwide'']) (doc p ! j)
      else doc p ! j)"
  by (simp add: yellow_branch_def Let_def nth_modify on_classes_def)

lemma nth_green_branch:
  "j < length (doc p) \<Longrightarrow>
   doc (green_branch w p t) ! j =
     (if j = t
      then (if cl_contains (classList (doc p ! t)) ''maxwide''
            then on_classes (\<lambda>cl. cl_remove cl [''closed'', ''minimized'']) (unmaximize_all (doc p) ! j)
            else on_classes (\<lambda>cl. cl_add (cl_remove cl [''closed'', ''minimized'']) ''maxwide'')
                   (unmaximize_all (doc p) ! j))
      else unmaximize_all (doc p) ! j)"
  by (simp add: green_branch_def Let_def nth_modify on_classes_def)

lemma flag_unmaximize:
  "at_most_one_flag e \<Longrightarrow> at_most_one_flag (on_classes (\<lambda>cl. cl_remove cl [''maxwide'']) e)"
  by (simp add: at_most_one_flag_def) (simp add: is_closed_def is_minimized_def is_maximized_def)

lemma flag_nth_unmaximize_all:
  "j < length d \<Longrightarrow> at_most_one_flag (d ! j) \<Longrightarrow> at_most_one_flag (unmaximize_all d ! j)"
  by (simp add: nth_unmaximize_all flag_unmaximize)

lemma at_most_one_flag_refresh [simp]:
  "at_most_one_flag (refreshTitleState e) = at_most_one_flag e"
  by (simp add: at_most_one_flag_def)

lemma red_flags:
  assumes "j < length (doc p)" "j = t \<or> at_most_one_flag (doc p ! j)"
  shows "at_most_one_flag (doc (red_branch p t) ! j)"
  using assms by (auto simp: nth_red_branch at_most_one_flag_def)

lemma yellow_flags:
  assumes "j < length (doc p)" "j = t \<or> at_most_one_flag (doc p ! j)"
  shows "at_most_one_flag (doc (yellow_branch p t) ! j)"
  using assms by (auto simp: nth_yellow_branch at_most_one_flag_def)

lemma green_flags:
  assumes "j < length (doc p)" "j = t \<or> at_most_one_flag (doc p ! j)"
  shows "at_most_one_flag (doc (green_branch w p t) ! j)"
proof (cases "j = t")
  case True
  with assms(1) show ?thesis
    by (simp add: nth_green_branch at_most_one_flag_def)
next
  case False
  with assms show ?thesis
    by (simp add: nth_green_branch flag_nth_unmaximize_all)
qed

lemma click_handler_doc:
  assumes "closest (doc p) ''dot'' target = btn # outer"
      and "closest (doc p) ''terminal'' (btn # outer) = t # rest"
  shows "doc (click_handler w p target) =
     modify t refreshTitleState
       (doc (if cl_contains (classList (doc p ! btn)) ''red'' then red_branch p t
             else if cl_contains (classList (doc p ! btn)) ''yellow'' then yellow_branch p t
             else if cl_contains (classList (doc p ! btn)) ''green'' then green_branch w p t
             else p))"
  using assms by (simp add: click_handler_def Let_def)

lemma v1_docs:
  "doc (redBtn_click_v1 p t) = modify t refreshTitleState (doc (red_branch p t))"
  "doc (yellowBtn_click_v1 p t) = modify t refreshTitleState (doc (yellow_branch p t))"
  "doc (greenBtn_click_v1 w p t) = modify t refreshTitleState (doc (green_branch w p t))"
  by (simp_all add: redBtn_click_v1_def yellowBtn_click_v1_def greenBtn_click_v1_def
      red_branch_def yellow_branch_def green_branch_def Let_def)

lemma flag_modify_refresh:
  "j < length d \<Longrightarrow> at_most_one_flag (modify t refreshTitleState d ! j) = at_most_one_flag (d ! j)"
  by (simp add: nth_modify)

lemma red_contract:
  assumes "t < length (doc p)" and "at_most_one_flag (doc p ! t)"
  shows "toggleClosed_contract (doc p) (doc (red_branch p t)) t"
  using assms
  by (auto simp: toggleClosed_contract_def nth_red_branch at_most_one_flag_def
      is_closed_def is_minimized_def is_maximized_def)

lemma contract_refresh:
  "toggleClosed_contract d (modify t refreshTitleState d') t = toggleClosed_contract d d' t"
  if "t < length d'"
  using that by (auto simp: toggleClosed_contract_def nth_modify)

subsection \<open>Titles and observers\<close>

lemma join_title_states:
  "join '' '' (title_states e) = title_label (is_closed e) (is_minimized e) (is_maximized e)"
  by (simp add: title_states_def title_label_def is_closed_def is_minimized_def is_maximized_def)

lemma refresh_in_sync: "title_in_sync (refreshTitleState e)"
  by (cases "title_state e")
     (simp_all add: title_in_sync_def refreshTitleState_def join_title_states
        is_closed_def is_minimized_def is_maximized_def)

lemma title_in_sync_cong:
  "classList e' = classList e \<Longrightarrow> title_state e' = title_state e \<Longrightarrow>
     title_in_sync e' = title_in_sync e"
  by (cases "title_state e")
     (simp_all add: title_in_sync_def is_closed_def is_minimized_def is_maximized_def)

lemma titles_in_sync_nth:
  "titles_in_sync d = (\<forall>j < length d. is_terminal (d ! j) \<longrightarrow> title_in_sync (d ! j))"
  by (simp add: titles_in_sync_def list_all_length)

lemma startup_in_sync: "titles_in_sync (startup_titles d)"
  by (simp add: titles_in_sync_nth startup_titles_def refresh_in_sync)

lemma mem_maximized_indices:
  "j \<in> set (maximized_indices d) \<longleftrightarrow> j < length d \<and> is_terminal (d ! j) \<and> is_maximized (d ! j)"
  by (auto simp: maximized_indices_def)

lemma length_deliver_records [simp]: "length (doc (deliver_records p)) = length (doc p)"
  by (simp add: deliver_records_def)

lemma nth_deliver_records:
  "j < length (doc p) \<Longrightarrow>
     doc (deliver_records p) ! j =
       (if j \<in> set (records p) \<and> is_terminal (doc p ! j)
        then refreshTitleState (doc p ! j) else doc p ! j)"
  by (simp add: deliver_records_def)

lemma covered_length: "covered p p' \<Longrightarrow> length (doc p') = length (doc p)"
  unfolding covered_def by blast

lemma covered_nth:
  "covered p p' \<Longrightarrow> j < length (doc p) \<Longrightarrow>
     j \<in> set (records p') \<or> title_in_sync (doc p' ! j) \<or>
     (classList (doc p' ! j) = classList (doc p ! j) \<and>
      title_state (doc p' ! j) = title_state (doc p ! j))"
  unfolding covered_def by blast

lemma is_terminal_deliver:
  "j < length (doc p) \<Longrightarrow> is_terminal (doc (deliver_records p) ! j) = is_terminal (doc p ! j)"
  by (simp add: nth_deliver_records)

lemma covered_deliver:
  assumes "covered p p'" and "titles_in_sync (doc p)"
  shows "titles_in_sync (doc (deliver_records p'))"
  unfolding titles_in_sync_nth
proof (intro allI impI)
  fix j assume j: "j < length (doc (deliver_records p'))"
    and tm: "is_terminal (doc (deliver_records p') ! j)"
  from j have j': "j < length (doc p')"
    by simp
  with covered_length [OF assms(1)] have j0: "j < length (doc p)"
    by simp
  from tm j' have t': "is_terminal (doc p' ! j)"
    by (simp only: is_terminal_deliver)
  show "title_in_sync (doc (deliver_records p') ! j)"
  proof (cases "j \<in> set (records p')")
    case True
    with j' t' show ?thesis by (simp add: nth_deliver_records refresh_in_sync)
  next
    case False
    with covered_nth [OF assms(1) j0] consider "title_in_sync (doc p' ! j)"
      | "classList (doc p' ! j) = classList (doc p ! j)" "title_state (doc p' ! j) = title_state (doc p ! j)"
      by blast
    then have "title_in_sync (doc p' ! j)"
    proof cases
      case 1
      then show ?thesis .
    next
      case 2
      from 2(1) t' have "is_terminal (doc p ! j)" by (simp add: is_terminal_def)
      with assms(2) j0 have "title_in_sync (doc p ! j)" by (simp add: titles_in_sync_nth)
      with title_in_sync_cong [OF 2] show ?thesis by simp
    qed
    with False j' show ?thesis by (simp add: nth_deliver_records)
  qed
qed

lemma covered_refl: "covered p p"
  by (simp add: covered_def)

lemma records_red_yellow [simp]:
  "records (red_branch p t) = records p @ [t, t]"
  "records (yellow_branch p t) = records p @ [t, t]"
  by (simp_all add: red_branch_def yellow_branch_def Let_def)

lemma covered_red: "covered p (red_branch p t)"
  by (auto simp: covered_def nth_red_branch)

lemma covered_yellow: "covered p (yellow_branch p t)"
  by (auto simp: covered_def nth_yellow_branch)

lemma records_green:
  "set (records (green_branch w p t)) \<supseteq> set (maximized_indices (doc p)) \<union> {t}"
  by (auto simp: green_branch_def Let_def)

lemma covered_green: "covered p (green_branch w p t)"
  unfolding covered_def
proof (intro conjI allI impI)
  show "length (doc (green_branch w p t)) = length (doc p)" by simp
next
  fix j assume j: "j < length (doc p)"
  show "j \<in> set (records (green_branch w p t)) \<or> title_in_sync (doc (green_branch w p t) ! j) \<or>
     classList (doc (green_branch w p t) ! j) = classList (doc p ! j) \<and>
     title_state (doc (green_branch w p t) ! j) = title_state (doc p ! j)"
  proof (cases "j = t \<or> (is_terminal (doc p ! j) \<and> is_maximized (doc p ! j))")
    case True
    with j records_green [of p t w] show ?thesis
      by (auto simp: mem_maximized_indices)
  next
    case False
    with j show ?thesis
      by (auto simp: nth_green_branch nth_unmaximize_all)
  qed
qed

lemma covered_refresh:
  assumes "covered p p'"
  shows "covered p (p'\<lparr>doc := modify t refreshTitleState (doc p')\<rparr>)"
  using assms
  by (auto simp: covered_def nth_modify refresh_in_sync)

lemma covered_click: "covered p (click_handler w p target)"
proof -
  have b: "covered p (if A then red_branch p t else if B then yellow_branch p t
                      else if C then green_branch w p t else p)" for A B C t
    by (simp add: covered_red covered_yellow covered_green covered_refl)
  show ?thesis
    by (simp add: click_handler_def Let_def covered_refl covered_refresh [OF b] split: list.splits)
qed

lemma covered_focus:
  "covered p (p\<lparr>doc := focusTerminal (doc p) t,
                 records := records p @ maximized_indices (doc p) @ [t, t]\<rparr>)"
  unfolding covered_def
proof (intro conjI allI impI)
  show "length (doc (p\<lparr>doc := focusTerminal (doc p) t,
                 records := records p @ maximized_indices (doc p) @ [t, t]\<rparr>)) = length (doc p)" by simp
next
  fix j assume j: "j < length (doc p)"
  let ?p' = "p\<lparr>doc := focusTerminal (doc p) t,
                 records := records p @ maximized_indices (doc p) @ [t, t]\<rparr>"
  show "j \<in> set (records ?p') \<or> title_in_sync (doc ?p' ! j) \<or>
     classList (doc ?p' ! j) = classList (doc p ! j) \<and>
     title_state (doc ?p' ! j) = title_state (doc p ! j)"
  proof (cases "j = t \<or> (is_terminal (doc p ! j) \<and> is_maximized (doc p ! j))")
    case True
    with j show ?thesis
      by (auto simp: mem_maximized_indices)
  next
    case False
    with j show ?thesis
      by (auto simp: nth_focusTerminal nth_unmaximize_all)
  qed
qed

lemma covered_records_only:
  "covered p p' \<Longrightarrow> doc p'' = doc p' \<Longrightarrow> records p'' = records p' \<Longrightarrow> covered p p''"
  by (simp add: covered_def)

lemma covered_open: "covered p (openFocusScroll ids w p i f)"
proof (cases "getElementById (doc p) i")
  case None
  then show ?thesis by (simp add: openFocusScroll_def covered_refl)
next
  case (Some t)
  show ?thesis
    by (rule covered_records_only [OF covered_focus [of p t]])
       (simp_all add: openFocusScroll_def Some Let_def)
qed

lemma covered_fire: "covered p (fire ids w p cb)"
proof (cases cb)
  case (Revalidate c)
  then show ?thesis by (simp add: fire_def covered_def)
next
  case (OpenFocusScroll i f)
  then show ?thesis by (simp add: fire_def covered_open)
qed

lemma covered_handle: "covered p (handle ids p wa)"
  by (cases "snd wa") (simp_all add: handle_def covered_click covered_open covered_fire)

lemma step_sync:
  "titles_in_sync (doc p) \<Longrightarrow> titles_in_sync (doc (step ids p wa))"
  unfolding step_def by (rule covered_deliver [OF covered_handle])

lemma run_sync:
  "titles_in_sync (doc p) \<Longrightarrow> titles_in_sync (doc (run ids p as))"
  unfolding run_def
  by (induction as arbitrary: p) (simp_all add: step_sync)

lemma covered_v1:
  "covered p (redBtn_click_v1 p t)"
  "covered p (yellowBtn_click_v1 p t)"
  "covered p (greenBtn_click_v1 w p t)"
proof -
  have "covered p ((red_branch p t)\<lparr>doc := modify t refreshTitleState (doc (red_branch p t))\<rparr>)"
    by (rule covered_refresh [OF covered_red])
  then show "covered p (redBtn_click_v1 p t)"
    by (rule covered_records_only) (simp_all add: redBtn_click_v1_def red_branch_def Let_def)
  have "covered p ((yellow_branch p t)\<lparr>doc := modify t refreshTitleState (doc (yellow_branch p t))\<rparr>)"
    by (rule covered_refresh [OF covered_yellow])
  then show "covered p (yellowBtn_click_v1 p t)"
    by (rule covered_records_only) (simp_all add: yellowBtn_click_v1_def yellow_branch_def Let_def)
  have "covered p ((green_branch w p t)\<lparr>doc := modify t refreshTitleState (doc (green_branch w p t))\<rparr>)"
    by (rule covered_refresh [OF covered_green])
  then show "covered p (greenBtn_click_v1 w p t)"
    by (rule covered_records_only) (simp_all add: greenBtn_click_v1_def green_branch_def Let_def)
qed

subsection \<open>Flag exclusivity as an invariant\<close>

lemma flags_exclusive_nth:
  "flags_exclusive d = (\<forall>j < length d. at_most_one_flag (d ! j))"
  by (simp add: flags_exclusive_def list_all_length)

lemma focus_flags:
  assumes "j < length d" "j = t \<or> at_most_one_flag (d ! j)"
  shows "at_most_one_flag (focusTerminal d t ! j)"
proof (cases "j = t")
  case True
  with assms(1) show ?thesis
    by (simp add: nth_focusTerminal at_most_one_flag_def)
next
  case False
  with assms show ?thesis
    by (simp add: nth_focusTerminal flag_nth_unmaximize_all)
qed

lemma click_handler_exclusive:
  assumes "flags_exclusive (doc p)"
  shows "flags_exclusive (doc (click_handler w p target))"
proof -
  have b: "flags_exclusive (doc (if A then red_branch p t else if B then yellow_branch p t
                      else if C then green_branch w p t else p))" for A B C t
    using assms by (simp add: flags_exclusive_nth red_flags yellow_flags green_flags)
  have r: "flags_exclusive d \<Longrightarrow> flags_exclusive (modify t refreshTitleState d)" for d t
    by (simp add: flags_exclusive_nth flag_modify_refresh)
  show ?thesis
    using assms by (simp add: click_handler_def Let_def r [OF b] split: list.splits)
qed

lemma openFocusScroll_exclusive:
  assumes "flags_exclusive (doc p)"
  shows "flags_exclusive (doc (openFocusScroll ids w p i f))"
proof (cases "getElementById (doc p) i")
  case None
  with assms show ?thesis by (simp add: openFocusScroll_def)
next
  case (Some t)
  have "flags_exclusive (focusTerminal (doc p) t)"
    using assms by (simp add: flags_exclusive_nth focus_flags)
  with Some show ?thesis
    by (simp add: openFocusScroll_def Let_def)
qed

lemma deliver_records_exclusive:
  "flags_exclusive (doc (deliver_records p)) = flags_exclusive (doc p)"
  by (auto simp: flags_exclusive_nth nth_deliver_records)

lemma handle_exclusive:
  assumes "flags_exclusive (doc p)"
  shows "flags_exclusive (doc (handle ids p wa))"
proof (cases "snd wa")
  case (Click target)
  with assms show ?thesis by (simp add: handle_def click_handler_exclusive)
next
  case (IndexLink i)
  with assms show ?thesis by (simp add: handle_def openFocusScroll_exclusive)
next
  case (Timer cb)
  with assms show ?thesis
    by (cases cb) (simp_all add: handle_def fire_def openFocusScroll_exclusive)
qed

lemma run_exclusive:
  "flags_exclusive (doc p) \<Longrightarrow> flags_exclusive (doc (run ids p as))"
  unfolding run_def
  by (induction as arbitrary: p)
     (simp_all add: step_def deliver_records_exclusive handle_exclusive)

lemma red_effect: "t < length (doc p) \<Longrightarrow> red_button_effect (doc p) (doc (red_branch p t)) t"
  by (simp add: red_button_effect_def nth_red_branch is_closed_def is_minimized_def is_maximized_def)

lemma effect_refresh:
  "t < length d' \<Longrightarrow> length d' = length d \<Longrightarrow>
     red_button_effect d (modify t refreshTitleState d') t = red_button_effect d d' t"
  by (auto simp: red_button_effect_def nth_modify)

subsection \<open>Scrolling\<close>


subsection \<open>The small page\<close>

lemma example_desk:
  "openFocusScroll [''about'', ''skills''] example_window example_page ''desk'' False =
     example_page\<lparr>doc := focusTerminal example_doc 0,
                   records := [1, 0, 0],
                   location_hash := ''#desk'',
                   effects := [ReplaceState ''#desk'']\<rparr>"
  by (simp add: openFocusScroll_def getElementById_def example_page_def example_doc_def
      example_window_def Let_def maximized_indices_def is_terminal_def is_maximized_def
      cl_contains_def upt_rec)

section \<open>Mutual exclusion of the maximized state\<close>

text \<open>
  Claim C1. Starting from a page on which no panel is maximized, after every action of any
  sequence of clicks (on window buttons or anywhere else), index-link clicks and timer
  callbacks, whatever the browser state each of them reads, at most one panel is
  maximized. The green-button branch and \<open>focusTerminal\<close> are the only code that adds
  \<open>maxwide\<close>.
\<close>

theorem single_maximized:
  assumes "maximized_panels (doc p) = []"
  shows "at_most_one_maximized (doc (run ids p (take n as)))"
  using assms by (intro run_inv) (simp add: at_most_one_maximized_def)

theorem single_maximized_witness:
  "maximized_panels (doc startup_page) = [] \<and>
   at_most_one_maximized
     (doc (run [''about'', ''skills''] startup_page
        [(example_window, Click [4, 3]), (example_window, IndexLink ''about'')]))"
proof -
  have h: "maximized_panels (doc startup_page) = []"
    by (simp add: startup_page_def startup_doc_def maximized_panels_def is_terminal_def
        is_maximized_def cl_contains_def)
  from single_maximized [OF h, of "[''about'', ''skills'']" 2
      "[(example_window, Click [4, 3]), (example_window, IndexLink ''about'')]"]
  show ?thesis using h by simp
qed

section \<open>focusTerminal\<close>

text \<open>
  Claim C3. For every document and every id that resolves to a panel, after
  \<open>focusTerminal\<close> on that panel it is not closed, not minimized and maximized, and every
  other panel is not maximized, whatever the state before; applying the operation again
  changes nothing.
\<close>

theorem focusTerminal_exclusive:
  assumes "getElementById d i = Some t" and "is_terminal (d ! t)"
  shows "\<not> is_closed (focusTerminal d t ! t) \<and> \<not> is_minimized (focusTerminal d t ! t) \<and>
         is_maximized (focusTerminal d t ! t) \<and>
         (\<forall>j < length d. j \<noteq> t \<longrightarrow> is_terminal (focusTerminal d t ! j) \<longrightarrow>
              \<not> is_maximized (focusTerminal d t ! j)) \<and>
         focusTerminal (focusTerminal d t) t = focusTerminal d t"
proof -
  from assms(1) have t: "t < length d"
    by (simp add: getElementById_Some)
  have "\<not> is_maximized (focusTerminal d t ! j)"
    if "j < length d" "j \<noteq> t" "is_terminal (focusTerminal d t ! j)" for j
    using that by (simp add: focus_others is_terminal_focusTerminal)
  with t show ?thesis
    by (simp add: focus_target focus_idem)
qed

theorem focusTerminal_exclusive_witness:
  "getElementById example_doc ''skills'' = Some 3 \<and> is_terminal (example_doc ! 3) \<and>
   \<not> is_closed (focusTerminal example_doc 3 ! 3) \<and>
   \<not> is_minimized (focusTerminal example_doc 3 ! 3) \<and>
   is_maximized (focusTerminal example_doc 3 ! 3) \<and>
   \<not> is_maximized (focusTerminal example_doc 3 ! 1)"
proof -
  have h1: "getElementById example_doc ''skills'' = Some 3"
    by (simp add: getElementById_def example_doc_def)
  have h2: "is_terminal (example_doc ! 3)"
    by (simp add: example_doc_def is_terminal_def cl_contains_def)
  have l: "length example_doc = 5"
    by (simp add: example_doc_def)
  have h3: "is_terminal (focusTerminal example_doc 3 ! 1)"
    by (simp add: is_terminal_focusTerminal l) (simp add: example_doc_def is_terminal_def cl_contains_def)
  from focusTerminal_exclusive [OF h1 h2] h1 h2 h3 l show ?thesis
    by simp
qed

section \<open>Flag exclusivity\<close>

text \<open>
  Claim C2. After a click on the red, yellow or green button of a panel (the three branches
  of the delegated handler, and the three listeners of the first revision), the panel has
  at most one of the classes \<open>closed\<close>, \<open>minimized\<close>, \<open>maxwide\<close>, whatever it had
  before; and every other element that had at most one of them before still has at most
  one. Each branch removes the other two classes from the panel it sets or toggles.
\<close>

theorem flag_exclusivity:
  assumes "closest (doc p) ''dot'' target = btn # outer"
      and "closest (doc p) ''terminal'' (btn # outer) = t # rest"
      and "cl_contains (classList (doc p ! btn)) ''red'' \<or>
           cl_contains (classList (doc p ! btn)) ''yellow'' \<or>
           cl_contains (classList (doc p ! btn)) ''green''"
  shows "\<forall>j < length (doc p). j = t \<or> at_most_one_flag (doc p ! j) \<longrightarrow>
           at_most_one_flag (doc (click_handler w p target) ! j) \<and>
           at_most_one_flag (doc (redBtn_click_v1 p t) ! j) \<and>
           at_most_one_flag (doc (yellowBtn_click_v1 p t) ! j) \<and>
           at_most_one_flag (doc (greenBtn_click_v1 w p t) ! j)"
proof (intro allI impI)
  fix j assume j: "j < length (doc p)" and a: "j = t \<or> at_most_one_flag (doc p ! j)"
  note f = red_flags [OF j a] yellow_flags [OF j a] green_flags [OF j a, of w]
  have "at_most_one_flag (doc (click_handler w p target) ! j)"
    using assms(3) j f
    by (auto simp: click_handler_doc [OF assms(1,2)] flag_modify_refresh)
  moreover have "at_most_one_flag (doc (redBtn_click_v1 p t) ! j)"
    "at_most_one_flag (doc (yellowBtn_click_v1 p t) ! j)"
    "at_most_one_flag (doc (greenBtn_click_v1 w p t) ! j)"
    using j f by (simp_all add: v1_docs flag_modify_refresh)
  ultimately show "at_most_one_flag (doc (click_handler w p target) ! j) \<and>
           at_most_one_flag (doc (redBtn_click_v1 p t) ! j) \<and>
           at_most_one_flag (doc (yellowBtn_click_v1 p t) ! j) \<and>
           at_most_one_flag (doc (greenBtn_click_v1 w p t) ! j)"
    by simp
qed

theorem flag_exclusivity_witness:
  "closest (doc example_page) ''dot'' [4, 3] = [4, 3] \<and>
   closest (doc example_page) ''terminal'' [4, 3] = [3] \<and>
   cl_contains (classList (doc example_page ! 4)) ''green'' \<and>
   at_most_one_flag (doc (click_handler example_window example_page [4, 3]) ! 3) \<and>
   at_most_one_flag (doc example_page ! 1) \<and>
   at_most_one_flag (doc (click_handler example_window example_page [4, 3]) ! 1)"
proof -
  have h1: "closest (doc example_page) ''dot'' [4, 3] = [4, 3]"
    by (simp add: closest_def example_page_def example_doc_def cl_contains_def)
  have h2: "closest (doc example_page) ''terminal'' [4, 3] = [3]"
    by (simp add: closest_def example_page_def example_doc_def cl_contains_def)
  have h3: "cl_contains (classList (doc example_page ! 4)) ''green''"
    by (simp add: example_page_def example_doc_def cl_contains_def)
  have h4: "at_most_one_flag (doc example_page ! 1)"
    by (simp add: at_most_one_flag_def example_page_def example_doc_def is_closed_def
        is_minimized_def is_maximized_def cl_contains_def)
  have l: "length (doc example_page) = 5"
    by (simp add: example_page_def example_doc_def)
  from h3 have h3': "cl_contains (classList (doc example_page ! 4)) ''red'' \<or>
      cl_contains (classList (doc example_page ! 4)) ''yellow'' \<or>
      cl_contains (classList (doc example_page ! 4)) ''green''"
    by simp
  note f = flag_exclusivity [OF h1 h2 h3', of example_window, rule_format]
  from f [of 3] f [of 1] h1 h2 h3 h4 l
  show ?thesis by simp
qed

section \<open>The red button\<close>

text \<open>
  Claim C5. A click on the red button of a panel flips its closed flag; if the panel is
  closed afterwards it is neither minimized nor maximized, and if it is open afterwards no
  other flag of any element has changed. In every state the handler flips \<open>closed\<close>,
  removes \<open>minimized\<close> and \<open>maxwide\<close> from the panel and leaves the classes of every
  other element alone (\<open>red_button_effect\<close>). The contract of the specification
  follows for a panel that satisfies flag exclusivity before the click: a closed panel is
  then neither minimized nor maximized, so the removal changes nothing when it is
  reopened. Flag exclusivity holds in every state reached from a page that has it
  (\<open>run_exclusive\<close>). Delegated handler of the second revision and listener of the
  first.
\<close>

theorem red_button_contract:
  assumes "closest (doc p) ''dot'' target = btn # outer"
      and "closest (doc p) ''terminal'' (btn # outer) = t # rest"
      and "cl_contains (classList (doc p ! btn)) ''red''"
  shows "red_button_effect (doc p) (doc (click_handler w p target)) t \<and>
         red_button_effect (doc p) (doc (redBtn_click_v1 p t)) t \<and>
         (at_most_one_flag (doc p ! t) \<longrightarrow>
            toggleClosed_contract (doc p) (doc (click_handler w p target)) t \<and>
            toggleClosed_contract (doc p) (doc (redBtn_click_v1 p t)) t)"
proof -
  from assms(2) have t: "t < length (doc p)"
    by (simp add: closest_Cons)
  from red_effect [OF t] t assms(3)
  have "red_button_effect (doc p) (doc (click_handler w p target)) t \<and>
         red_button_effect (doc p) (doc (redBtn_click_v1 p t)) t"
    by (simp add: click_handler_doc [OF assms(1,2)] v1_docs effect_refresh)
  moreover have "toggleClosed_contract (doc p) (doc (click_handler w p target)) t \<and>
            toggleClosed_contract (doc p) (doc (redBtn_click_v1 p t)) t"
    if "at_most_one_flag (doc p ! t)"
    using red_contract [OF t that] t assms(3)
    by (simp add: click_handler_doc [OF assms(1,2)] v1_docs contract_refresh)
  ultimately show ?thesis by blast
qed

theorem red_button_contract_witness:
  "closest (doc example_page) ''dot'' [2, 1] = [2, 1] \<and>
   closest (doc example_page) ''terminal'' [2, 1] = [1] \<and>
   cl_contains (classList (doc example_page ! 2)) ''red'' \<and>
   at_most_one_flag (doc example_page ! 1) \<and>
   toggleClosed_contract (doc example_page)
     (doc (click_handler example_window example_page [2, 1])) 1 \<and>
   red_button_effect (doc example_page)
     (doc (click_handler example_window example_page [2, 1])) 1"
proof -
  have h1: "closest (doc example_page) ''dot'' [2, 1] = [2, 1]"
    by (simp add: closest_def example_page_def example_doc_def cl_contains_def)
  have h2: "closest (doc example_page) ''terminal'' [2, 1] = [1]"
    by (simp add: closest_def example_page_def example_doc_def cl_contains_def)
  have h3: "cl_contains (classList (doc example_page ! 2)) ''red''"
    by (simp add: example_page_def example_doc_def cl_contains_def)
  have h4: "at_most_one_flag (doc example_page ! 1)"
    by (simp add: at_most_one_flag_def example_page_def example_doc_def is_closed_def
        is_minimized_def is_maximized_def cl_contains_def)
  from red_button_contract [OF h1 h2 h3, of example_window] h1 h2 h3 h4
  show ?thesis by simp
qed

section \<open>The scroll target\<close>



section \<open>Re-validation\<close>


section \<open>Ids that resolve to nothing\<close>

text \<open>
  Claim C6, as amended. For every id for which \<open>document.getElementById\<close> finds no
  element (the empty id included), \<open>openFocusScroll\<close> returns the page as it was: no
  element changes, no scroll or timer is issued, the URL is not touched, and there is no
  error value to return. Both revisions.
\<close>

theorem unknown_id_noop:
  assumes "getElementById (doc p) i = None"
  shows "openFocusScroll ids w p i f = p \<and> openFocusScroll_v1 w p i f = p"
  using assms by (simp add: openFocusScroll_def openFocusScroll_v1_def)

theorem unknown_id_noop_witness:
  "getElementById (doc example_page) ''does-not-exist'' = None \<and>
   openFocusScroll [''about'', ''skills''] example_window example_page ''does-not-exist'' True
     = example_page"
proof -
  have h: "getElementById (doc example_page) ''does-not-exist'' = None"
    by (simp add: getElementById_def example_page_def example_doc_def)
  from unknown_id_noop [OF h] h show ?thesis by simp
qed

text \<open>
  Claim C6 as stated speaks of every id that does not resolve to a panel. The id
  \<open>desk\<close> (the container that holds the panels) resolves to an element that is not a
  panel, and \<open>openFocusScroll('desk')\<close> is not a no-op: the guard is \<open>if (!term) return\<close>
  only, so the maximized panel \<open>#about\<close> loses \<open>maxwide\<close> and the URL is replaced.
\<close>

theorem non_panel_id_counterexample:
  "panel_with_id (doc example_page) ''desk'' = None \<and>
   is_terminal (doc example_page ! 1) \<and> is_maximized (doc example_page ! 1) \<and>
   \<not> is_maximized
       (doc (openFocusScroll [''about'', ''skills''] example_window example_page ''desk'' False) ! 1) \<and>
   effects (openFocusScroll [''about'', ''skills''] example_window example_page ''desk'' False)
     = [ReplaceState ''#desk''] \<and>
   openFocusScroll [''about'', ''skills''] example_window example_page ''desk'' False
     \<noteq> example_page"
proof -
  have 1: "panel_with_id (doc example_page) ''desk'' = None"
    by (simp add: panel_with_id_def example_page_def example_doc_def is_terminal_def cl_contains_def)
  have 2: "is_terminal (doc example_page ! 1) \<and> is_maximized (doc example_page ! 1)"
    by (simp add: example_page_def example_doc_def is_terminal_def is_maximized_def cl_contains_def)
  have 3: "\<not> is_maximized (focusTerminal example_doc 0 ! 1)"
    by (rule focus_others) (simp_all add: example_doc_def is_terminal_def cl_contains_def)
  have 4: "effects example_page = []"
    by (simp add: example_page_def)
  have "location_hash
          (openFocusScroll [''about'', ''skills''] example_window example_page ''desk'' False)
        \<noteq> location_hash example_page"
    by (simp add: example_desk) (simp add: example_page_def)
  then have 5: "openFocusScroll [''about'', ''skills''] example_window example_page ''desk'' False
     \<noteq> example_page"
    by auto
  from 1 2 3 4 5 show ?thesis
    by (simp add: example_desk)
qed

section \<open>Page load\<close>

text \<open>
  Claim C8. With an empty \<open>location.hash\<close> the navigation script (second revision)
  schedules \<open>openFocusScroll('about', true)\<close>; with a fragment it schedules the call for
  that id. When the callback runs on a page where \<open>about\<close> resolves to a panel, that
  panel is maximized, neither closed nor minimized, and at most one panel is maximized.
  The first revision has no default and schedules nothing for an empty hash, so the file
  as a whole, which runs the first revision and then the second, schedules the one call
  of the second.
\<close>

theorem default_fragment:
  "initial_navigation [] = [SetTimeout (OpenFocusScroll ''about'' True) 100] \<and>
   initial_navigation_v1 [] @ initial_navigation [] =
     [SetTimeout (OpenFocusScroll ''about'' True) 100] \<and>
   (x \<noteq> [] \<longrightarrow> initial_navigation (CHR ''#'' # x) = [SetTimeout (OpenFocusScroll x True) 100]) \<and>
   (getElementById (doc p) ''about'' = Some t \<longrightarrow> is_terminal (doc p ! t) \<longrightarrow>
      (let p' = fire ids w p (OpenFocusScroll ''about'' True)
       in is_terminal (doc p' ! t) \<and> is_maximized (doc p' ! t) \<and>
          \<not> is_closed (doc p' ! t) \<and> \<not> is_minimized (doc p' ! t) \<and>
          at_most_one_maximized (doc p')))"
proof -
  have "is_terminal (focusTerminal (doc p) t ! t) \<and> is_maximized (focusTerminal (doc p) t ! t) \<and>
          \<not> is_closed (focusTerminal (doc p) t ! t) \<and> \<not> is_minimized (focusTerminal (doc p) t ! t) \<and>
          at_most_one_maximized (focusTerminal (doc p) t)"
    if "getElementById (doc p) ''about'' = Some t" "is_terminal (doc p ! t)"
  proof -
    from that(1) have "t < length (doc p)" by (simp add: getElementById_Some)
    with that(2) show ?thesis
      by (simp add: focus_target focusTerminal_one is_terminal_focusTerminal)
  qed
  then show ?thesis
    by (auto simp: initial_navigation_def initial_navigation_v1_def fire_def
        openFocusScroll_def Let_def)
qed

theorem default_fragment_witness:
  "initial_navigation ''#skills'' = [SetTimeout (OpenFocusScroll ''skills'' True) 100] \<and>
   getElementById (doc startup_page) ''about'' = Some 1 \<and> is_terminal (doc startup_page ! 1) \<and>
   is_maximized (doc (fire [''about'', ''skills''] example_window startup_page
                        (OpenFocusScroll ''about'' True)) ! 1)"
proof -
  have h1: "getElementById (doc startup_page) ''about'' = Some 1"
    by (simp add: getElementById_def startup_page_def startup_doc_def)
  have h2: "is_terminal (doc startup_page ! 1)"
    by (simp add: startup_page_def startup_doc_def is_terminal_def cl_contains_def)
  from default_fragment [of "''skills''" startup_page 1 "[''about'', ''skills'']" example_window]
    h1 h2
  show ?thesis by (simp add: Let_def)
qed

section \<open>The title label\<close>

text \<open>
  Claim C9, as amended. The label uses the words \<open>cerrada\<close>, \<open>minimizada\<close> and
  \<open>max\<close>. \<open>refreshTitleState\<close> sets the title of a panel that has one to the
  space-joined words of the flags that are set, in the order closed, minimized, max (the
  empty string when none is set). After the startup loop every panel title is in sync, and
  it stays in sync after every action, once the observers have been notified: after any
  sequence of clicks, index-link clicks and timers (second revision), and after each
  button listener of the first revision.
\<close>

theorem title_state_label:
  "title_label False False False = [] \<and>
   title_label True True True = ''cerrada minimizada max'' \<and>
   (title_state e \<noteq> None \<longrightarrow>
      title_state (refreshTitleState e) =
        Some (title_label (is_closed e) (is_minimized e) (is_maximized e))) \<and>
   titles_in_sync (startup_titles d) \<and>
   (titles_in_sync (doc p) \<longrightarrow>
      titles_in_sync (doc (run ids p as)) \<and>
      titles_in_sync (doc (deliver_records (redBtn_click_v1 p t))) \<and>
      titles_in_sync (doc (deliver_records (yellowBtn_click_v1 p t))) \<and>
      titles_in_sync (doc (deliver_records (greenBtn_click_v1 w p t))))"
proof -
  have "title_state (refreshTitleState e) =
        Some (title_label (is_closed e) (is_minimized e) (is_maximized e))"
    if "title_state e \<noteq> None"
    using that by (auto simp: refreshTitleState_def join_title_states)
  moreover have "title_label False False False = []"
    "title_label True True True = ''cerrada minimizada max''"
    by (simp_all add: title_label_def)
  ultimately show ?thesis
    by (simp add: startup_in_sync run_sync covered_deliver [OF covered_v1(1)]
        covered_deliver [OF covered_v1(2)] covered_deliver [OF covered_v1(3)])
qed

theorem title_state_label_witness:
  "title_state (example_doc ! 1) \<noteq> None \<and>
   title_state (refreshTitleState (example_doc ! 1)) = Some ''max'' \<and>
   titles_in_sync (doc example_page) \<and>
   titles_in_sync (doc (run [''about'', ''skills''] example_page [(example_window, Click [4, 3])]))"
proof -
  have h1: "title_state (example_doc ! 1) \<noteq> None"
    by (simp add: example_doc_def)
  have h2: "titles_in_sync (doc example_page)"
    by (simp add: titles_in_sync_def title_in_sync_def title_label_def example_page_def
        example_doc_def is_terminal_def is_closed_def is_minimized_def is_maximized_def
        cl_contains_def)
  have l: "title_label (is_closed (example_doc ! 1)) (is_minimized (example_doc ! 1))
             (is_maximized (example_doc ! 1)) = ''max''"
    by (simp add: title_label_def example_doc_def is_closed_def is_minimized_def
        is_maximized_def cl_contains_def)
  from title_state_label [of "example_doc ! 1" _ example_page "[''about'', ''skills'']"
      "[(example_window, Click [4, 3])]"] h1 h2 l
  show ?thesis by simp
qed

text \<open>
  Claim C9 as stated names the labels \<open>closed\<close> and \<open>minimized\<close>. For a closed panel the
  script writes \<open>cerrada\<close>.
\<close>

theorem title_label_counterexample:
  "is_closed closed_panel \<and> \<not> is_minimized closed_panel \<and> \<not> is_maximized closed_panel \<and>
   title_state (refreshTitleState closed_panel) = Some ''cerrada'' \<and>
   spec_title_label (is_closed closed_panel) (is_minimized closed_panel)
     (is_maximized closed_panel) = ''closed'' \<and>
   title_state (refreshTitleState closed_panel) \<noteq>
     Some (spec_title_label (is_closed closed_panel) (is_minimized closed_panel)
             (is_maximized closed_panel))"
  by (simp add: closed_panel_def refreshTitleState_def title_states_def spec_title_label_def
      is_closed_def is_minimized_def is_maximized_def cl_contains_def)

section \<open>The two revisions\<close>

text \<open>
  Claim C10, as amended. The two definitions of \<open>scrollAdjusted\<close> issue the same scroll
  and schedule the same callback, and the two callbacks issue the same corrections. The
  two definitions of \<open>openFocusScroll\<close> produce the same document, the same
  \<open>location.hash\<close> and the same history effects for every id; they are equal altogether
  when \<open>forceAdjust\<close> is true or the id is in both or in neither of the two sets
  \<open>IDs_TO_ADJUST_SCROLL\<close> (the fixed ids about, education, experience in the first
  revision; the ids of the \<open>.terminal[data-adjust-scroll]\<close> elements in the second).
\<close>

theorem revisions_agree:
  "scrollAdjusted_v1 w t f = scrollAdjusted w t f \<and>
   revalidate_v1 c r = revalidate c r \<and>
   doc (openFocusScroll_v1 w p i f) = doc (openFocusScroll ids w p i f) \<and>
   location_hash (openFocusScroll_v1 w p i f) = location_hash (openFocusScroll ids w p i f) \<and>
   history_effects (effects (openFocusScroll_v1 w p i f)) =
     history_effects (effects (openFocusScroll ids w p i f)) \<and>
   (f \<or> (i \<in> set IDs_TO_ADJUST_SCROLL_v1) = (i \<in> set ids) \<longrightarrow>
      openFocusScroll_v1 w p i f = openFocusScroll ids w p i f)"
proof -
  have s: "scrollAdjusted_v1 w t f = scrollAdjusted w t f" for t f
    by (simp add: scrollAdjusted_v1_def scrollAdjusted_def)
  have h: "history_effects (scrollAdjusted w t f) = []" for t f
    by (simp add: scrollAdjusted_def history_effects_def Let_def)
  have a: "history_effects (xs @ ys) = history_effects xs @ history_effects ys" for xs ys
    by (simp add: history_effects_def)
  show ?thesis
    by (cases "getElementById (doc p) i")
       (auto simp: s h a revalidate_v1_def revalidate_def openFocusScroll_v1_def
          openFocusScroll_def Let_def)
qed

theorem revisions_agree_witness:
  "openFocusScroll_v1 example_window example_page ''skills'' True =
   openFocusScroll (IDs_TO_ADJUST_SCROLL (doc example_page)) example_window example_page
     ''skills'' True \<and>
   (''about'' \<in> set IDs_TO_ADJUST_SCROLL_v1) =
     (''about'' \<in> set (IDs_TO_ADJUST_SCROLL (doc example_page))) \<and>
   openFocusScroll_v1 example_window example_page ''about'' False =
   openFocusScroll (IDs_TO_ADJUST_SCROLL (doc example_page)) example_window example_page
     ''about'' False"
proof -
  have i: "IDs_TO_ADJUST_SCROLL (doc example_page) = [''about'', ''skills'']"
    by (simp add: IDs_TO_ADJUST_SCROLL_def example_page_def example_doc_def is_terminal_def
        cl_contains_def)
  have m: "(''about'' \<in> set IDs_TO_ADJUST_SCROLL_v1) =
     (''about'' \<in> set (IDs_TO_ADJUST_SCROLL (doc example_page)))"
    by (simp add: i IDs_TO_ADJUST_SCROLL_v1_def)
  from revisions_agree [of example_window _ True _ _ example_page "''skills''"
      "IDs_TO_ADJUST_SCROLL (doc example_page)"]
    revisions_agree [of example_window _ False _ _ example_page "''about''"
      "IDs_TO_ADJUST_SCROLL (doc example_page)"] m
  show ?thesis by simp
qed

text \<open>
  Claim C10 as stated makes the two revisions of \<open>openFocusScroll\<close> behaviourally
  equivalent. On a page where \<open>#skills\<close> has the attribute \<open>data-adjust-scroll\<close>,
  \<open>openFocusScroll('skills')\<close> scrolls in the second revision and does not in the first.
\<close>

theorem revisions_differ_counterexample:
  "effects (openFocusScroll_v1 example_window example_page ''skills'' False)
     = [ReplaceState ''#skills''] \<and>
   effects (openFocusScroll (IDs_TO_ADJUST_SCROLL (doc example_page)) example_window
              example_page ''skills'' False)
     = [ScrollTo 1150 Smooth,
        SetTimeout (Revalidate \<lparr>rv_term = 3, rv_offset = 50, rv_viewportHeight = 800,
                      rv_fitsInViewport = True, rv_forceAdjust = False\<rparr>) 450,
        ReplaceState ''#skills''] \<and>
   openFocusScroll_v1 example_window example_page ''skills'' False \<noteq>
   openFocusScroll (IDs_TO_ADJUST_SCROLL (doc example_page)) example_window example_page
     ''skills'' False"
proof -
  have g: "getElementById (doc example_page) ''skills'' = Some 3"
    by (simp add: getElementById_def example_page_def example_doc_def)
  have i: "IDs_TO_ADJUST_SCROLL (doc example_page) = [''about'', ''skills'']"
    by (simp add: IDs_TO_ADJUST_SCROLL_def example_page_def example_doc_def is_terminal_def
        cl_contains_def)
  have e: "effects example_page = []"
    by (simp add: example_page_def)
  have w: "history_ok example_window"
    by (simp add: example_window_def)
  have 1: "effects (openFocusScroll_v1 example_window example_page ''skills'' False)
     = [ReplaceState ''#skills'']"
    by (simp add: openFocusScroll_v1_def g e w IDs_TO_ADJUST_SCROLL_v1_def Let_def)
  have 2: "effects (openFocusScroll (IDs_TO_ADJUST_SCROLL (doc example_page)) example_window
              example_page ''skills'' False)
     = [ScrollTo 1150 Smooth,
        SetTimeout (Revalidate \<lparr>rv_term = 3, rv_offset = 50, rv_viewportHeight = 800,
                      rv_fitsInViewport = True, rv_forceAdjust = False\<rparr>) 450,
        ReplaceState ''#skills'']"
    by (simp add: openFocusScroll_def g e w i Let_def scrollAdjusted_def getToolbarOffset_def
        example_window_def)
  from 1 2 show ?thesis by auto
qed

end
